theory Spec2Isabelle
  imports Main "HOL-Library.Sublist"
begin

section \<open>Strings of the script\<close>

text \<open>
  A JavaScript string is a sequence of UTF-16 code units, and \<open>length\<close>, \<open>slice\<close>,
  \<open>includes\<close> and the regular expression \<open>\s\<close> all work on code units. A string is
  therefore a list of code units (natural numbers below 65536); an ASCII literal of the
  script is written \<open>str ''...''\<close>.
\<close>

type_synonym jsstring = "nat list"

definition str :: "string \<Rightarrow> jsstring" where
  "str cs = map of_char cs"

definition SPACE :: nat where
  "SPACE = 32"

text \<open>The ellipsis \<open>U+2026\<close> that \<open>sanitizeText\<close> appends: one code unit.\<close>

definition ELLIPSIS :: nat where
  "ELLIPSIS = 8230"

text \<open>
  The code units matched by \<open>\s\<close> and removed by \<open>trim\<close>: ECMAScript's WhiteSpace and
  LineTerminator (TAB, LF, VT, FF, CR, SP, NBSP, U+1680, U+2000 to U+200A, U+2028, U+2029,
  U+202F, U+205F, U+3000, U+FEFF).
\<close>

definition isWhiteSpace :: "nat \<Rightarrow> bool" where
  "isWhiteSpace c \<longleftrightarrow>
     (9 \<le> c \<and> c \<le> 13) \<or> c = 32 \<or> c = 160 \<or> c = 5760 \<or> (8192 \<le> c \<and> c \<le> 8202) \<or>
     c = 8232 \<or> c = 8233 \<or> c = 8239 \<or> c = 8287 \<or> c = 12288 \<or> c = 65279"

text \<open>\<open>s.trim()\<close>: white space removed at both ends.\<close>

definition trimEnd :: "jsstring \<Rightarrow> jsstring" where
  "trimEnd s = rev (dropWhile isWhiteSpace (rev s))"

definition trim :: "jsstring \<Rightarrow> jsstring" where
  "trim s = trimEnd (dropWhile isWhiteSpace s)"

text \<open>\<open>s.replace(/\s+/g, " ")\<close>: every maximal run of white space becomes one space.\<close>

function collapseWhitespace :: "jsstring \<Rightarrow> jsstring" where
  "collapseWhitespace [] = []"
| "collapseWhitespace (c # cs) =
     (if isWhiteSpace c then SPACE # collapseWhitespace (dropWhile isWhiteSpace cs)
      else c # collapseWhitespace cs)"
  by pat_completeness auto
termination
  by (relation "measure length") (auto simp: length_dropWhile_le less_Suc_eq_le)

text \<open>
  \<open>s.toLowerCase()\<close>. On a string of Basic Latin code units (all below 128) it moves A to
  Z up by 32 and leaves every other code unit. On a string with a code unit beyond
  Basic Latin the result comes from the case mapping tables of the engine, which are no
  part of the script and may change the length or look at the neighbours of a code unit:
  that mapping is the argument \<open>table\<close>.
\<close>

definition lowerUnit :: "nat \<Rightarrow> nat" where
  "lowerUnit c = (if 65 \<le> c \<and> c \<le> 90 then c + 32 else c)"

definition toLowerCase :: "(jsstring \<Rightarrow> jsstring) \<Rightarrow> jsstring \<Rightarrow> jsstring" where
  "toLowerCase table s = (if list_all (\<lambda>c. c < 128) s then map lowerUnit s else table s)"

text \<open>\<open>s.includes(k)\<close>: \<open>k\<close> occurs in \<open>s\<close> as a contiguous run of code units.\<close>

fun includesStr :: "jsstring \<Rightarrow> jsstring \<Rightarrow> bool" where
  "includesStr [] k = (k = [])"
| "includesStr (c # cs) k = (prefix k (c # cs) \<or> includesStr cs k)"

section \<open>Payload sanitizer\<close>

text \<open>
  \<^verbatim>\<open>
  function sanitizeText(text, maxLen = 300) {
    if (!text) return "";
    let s = String(text).replace(/\s+/g, " ").trim();
    if (s.length > maxLen) s = s.slice(0, maxLen).trim() + "\u2026";
    return s;
  }
  \<close>
  \<open>text\<close> is a string and \<open>maxLen\<close> a length, so \<open>s.slice(0, maxLen)\<close> is \<open>take maxLen s\<close>.
\<close>

definition sanitizeText :: "jsstring \<Rightarrow> nat \<Rightarrow> jsstring" where
  "sanitizeText text maxLen =
     (if text = [] then []
      else let s = trim (collapseWhitespace text)
           in if length s > maxLen then trim (take maxLen s) @ [ELLIPSIS] else s)"

section \<open>Data model\<close>

text \<open>
  A Product Record of \<open>products.json\<close>. The field \<open>id\<close> of the script is \<open>pid\<close> here and
  \<open>image\<close> is \<open>imageRef\<close> (both names are taken in HOL). Identifiers are integers and the
  other fields are strings, as the catalog has them; on a string, \<open>p.name || ""\<close> is
  \<open>p.name\<close>.
\<close>

record product =
  pid :: int
  name :: jsstring
  brand :: jsstring
  category :: jsstring
  imageRef :: jsstring
  description :: jsstring

datatype role = System | User | Assistant

record message =
  role :: role
  content :: jsstring

text \<open>
  An object literal is the list of its properties, in the order they are written.
\<close>

type_synonym jsobject = "(string \<times> jsstring) list"

text \<open>
  What \<open>chatWindow.innerHTML\<close> is set to: one of the fixed notices, or the rendering of
  the visible messages. The markup itself is left out.
\<close>

datatype display =
    InitialChat
  | SelectAtLeastOne
  | ApiKeyNotSet
  | GeneratingRoutine
  | ErrorGeneratingRoutine jsstring
  | NoMessagesYet
  | Transcript "message list"

text \<open>
  The module-level state of the script. \<open>selectedProductIds\<close> is a JavaScript \<open>Set\<close>:
  a duplicate-free list in insertion order. \<open>requests\<close> records, in order, the message
  sequences that were posted to the completions endpoint; the script keeps no such
  record, it is there to state that a call was or was not made.
\<close>

record state =
  allProducts :: "product list"
  selectedProductIds :: "int list"
  conversationMessages :: "message list"
  hiddenApiMessages :: "message list"
  chatWindow :: display
  generateRoutineBtnDisabled :: bool
  userInput :: jsstring
  requests :: "message option list list"

text \<open>
  The outcome of the \<open>fetch\<close> in \<open>sendChatMessagesAndGetReply\<close>: the promise rejects
  (network failure, unreadable body) with an error message; or the response is not
  \<open>ok\<close>, with its status and body text; or it is \<open>ok\<close>, with
  \<open>choices[0].message.content\<close>, \<open>None\<close> when a link of that chain is missing.
\<close>

datatype response =
    Rejected jsstring
  | NotOk nat jsstring
  | Ok "jsstring option"

text \<open>
  What the script takes from its surroundings: the global \<open>OPENAI_API_KEY\<close> of a local
  \<open>secrets.js\<close> (\<open>None\<close> when the file is absent and the global undefined),
  \<open>JSON.stringify(selected, null, 2)\<close>, the remote endpoint, which answers a key and a
  message sequence, and the engine's lower-casing of the strings that leave Basic Latin.
\<close>

record env =
  OPENAI_API_KEY :: "jsstring option"
  stringify :: "jsobject list \<Rightarrow> jsstring"
  fetch :: "jsstring \<Rightarrow> message option list \<Rightarrow> response"
  unicodeLower :: "jsstring \<Rightarrow> jsstring"

text \<open>
  The result of \<open>Number(id)\<close>. The catalog's identifiers are integers, so all that
  matters of a number is whether it is an integer and which: \<open>OtherNumber\<close> stands for
  \<open>NaN\<close>, the infinities and the fractions, none of which is \<open>===\<close> to an identifier.
\<close>

datatype jsnumber = IntegerValue int | OtherNumber


section \<open>Selection store\<close>

text \<open>\<open>selectedProductIds.add(x)\<close>\<close>

definition setAdd :: "int \<Rightarrow> int list \<Rightarrow> int list" where
  "setAdd x xs = (if x \<in> set xs then xs else xs @ [x])"

text \<open>
  \<^verbatim>\<open>
  arr.forEach((id) => {
    const numId = Number(id);
    if (allProducts.find((p) => p.id === numId))
      selectedProductIds.add(numId);
  });
  \<close>
  \<open>Number\<close> is the coercion of the language, a parameter here.
\<close>

definition restoreId :: "('r \<Rightarrow> jsnumber) \<Rightarrow> state \<Rightarrow> 'r \<Rightarrow> state" where
  "restoreId Number st raw =
     (case Number raw of
        IntegerValue numId \<Rightarrow>
          (case find (\<lambda>p. pid p = numId) (allProducts st) of
             Some p \<Rightarrow> st\<lparr>selectedProductIds := setAdd numId (selectedProductIds st)\<rparr>
           | None \<Rightarrow> st)
      | OtherNumber \<Rightarrow> st)"



section \<open>Payload of the selected products\<close>

text \<open>
  \<^verbatim>\<open>
  function getSelectedProductsPayload() {
    return Array.from(selectedProductIds)
      .map((id) => {
        const p = allProducts.find((x) => x.id === id);
        if (!p) return null;
        return { name: p.name || "", brand: p.brand || "", category: p.category || "",
                 description: sanitizeText(p.description || "", 300) };
      })
      .filter(Boolean);
  }
  \<close>
\<close>

definition payloadEntry :: "state \<Rightarrow> int \<Rightarrow> jsobject option" where
  "payloadEntry st i =
     (case find (\<lambda>x. pid x = i) (allProducts st) of
        None \<Rightarrow> None
      | Some p \<Rightarrow>
          Some [(''name'', name p), (''brand'', brand p), (''category'', category p),
                (''description'', sanitizeText (description p) 300)])"

definition getSelectedProductsPayload :: "state \<Rightarrow> jsobject list" where
  "getSelectedProductsPayload st =
     [entry. Some entry \<leftarrow> map (payloadEntry st) (selectedProductIds st)]"

section \<open>Conversation state\<close>

text \<open>The one element \<open>conversationMessages\<close> starts with.\<close>

definition systemDirective :: message where
  \<open>systemDirective =
     \<lparr>role = System,
      content = str (''You are a helpful skincare and product routine assistant. You must only answer questions about the generated routine or directly related topics (skincare, haircare, makeup, fragrance, product usage, SPF/suncare). If a user asks about anything unrelated (politics, finance, medical diagnosis beyond general skincare tips, or other off-topic subjects), reply briefly: "I can only help with the routine or product-related questions. Please ask about skincare, haircare, makeup, fragrance, or the routine."'')\<rparr>\<close>

text \<open>
  The state once the catalog is loaded and before anything is restored or selected.
\<close>

definition initialState :: "product list \<Rightarrow> state" where
  "initialState products =
     \<lparr>allProducts = products, selectedProductIds = [],
      conversationMessages = [systemDirective], hiddenApiMessages = [],
      chatWindow = InitialChat, generateRoutineBtnDisabled = False, userInput = [],
      requests = []\<rparr>"

text \<open>\<open>conversationMessages.push(m)\<close> and \<open>hiddenApiMessages.push(m)\<close>\<close>

definition pushConversation :: "message \<Rightarrow> state \<Rightarrow> state" where
  "pushConversation m st = st\<lparr>conversationMessages := conversationMessages st @ [m]\<rparr>"

definition pushHidden :: "message \<Rightarrow> state \<Rightarrow> state" where
  "pushHidden m st = st\<lparr>hiddenApiMessages := hiddenApiMessages st @ [m]\<rparr>"

text \<open>
  The two appends as the handlers make them: a visible message of a role and a text,
  a hidden message of role \<open>user\<close>.
\<close>

definition appendVisible :: "role \<Rightarrow> jsstring \<Rightarrow> state \<Rightarrow> state" where
  "appendVisible r c st = pushConversation \<lparr>role = r, content = c\<rparr> st"

definition appendHidden :: "jsstring \<Rightarrow> state \<Rightarrow> state" where
  "appendHidden c st = pushHidden \<lparr>role = User, content = c\<rparr> st"

text \<open>\<open>xs[i]\<close>: \<open>undefined\<close> (here \<open>None\<close>) beyond the end.\<close>

definition index :: "'a list \<Rightarrow> nat \<Rightarrow> 'a option" where
  "index xs i = (if i < length xs then Some (xs ! i) else None)"

text \<open>
  \<^verbatim>\<open>
  const messagesForApi = [
    conversationMessages[0],
    ...hiddenApiMessages,
    ...conversationMessages.slice(1),
  ];
  \<close>
  The same literal is written in \<open>generateRoutine\<close> and in the submit handler.
\<close>

definition messagesForApi :: "state \<Rightarrow> message option list" where
  "messagesForApi st =
     index (conversationMessages st) 0 #
     map Some (hiddenApiMessages st) @ map Some (drop 1 (conversationMessages st))"

text \<open>
  \<open>xs[i] = v\<close>: replaces the element at \<open>i\<close>, appends when \<open>i\<close> is the length. Further
  out JavaScript extends the array and leaves holes, which are no messages: \<open>None\<close>.
\<close>

definition assignIndex :: "message list \<Rightarrow> nat \<Rightarrow> message \<Rightarrow> message list option" where
  "assignIndex xs i v =
     (if i < length xs then Some (xs[i := v])
      else if i = length xs then Some (xs @ [v])
      else None)"

text \<open>
  \<open>renderChatWindow\<close>: the messages other than the system message, or the notice that
  there are none yet.
\<close>

definition renderChatWindow :: "state \<Rightarrow> state" where
  "renderChatWindow st =
     (let visible = filter (\<lambda>m. role m \<noteq> System) (conversationMessages st)
      in if visible = [] then st\<lparr>chatWindow := NoMessagesYet\<rparr>
         else st\<lparr>chatWindow := Transcript visible\<rparr>)"

section \<open>Remote completion client\<close>

definition DEFAULT_OPENAI_API_KEY :: jsstring where
  "DEFAULT_OPENAI_API_KEY = []"

text \<open>
  \<^verbatim>\<open>
  function getApiKey() {
    if (typeof OPENAI_API_KEY !== "undefined" && OPENAI_API_KEY) return OPENAI_API_KEY;
    return DEFAULT_OPENAI_API_KEY || null;
  }
  \<close>
\<close>

definition getApiKey :: "env \<Rightarrow> jsstring option" where
  "getApiKey env =
     (case OPENAI_API_KEY env of
        Some k \<Rightarrow> if k \<noteq> [] then Some k
                  else if DEFAULT_OPENAI_API_KEY \<noteq> [] then Some DEFAULT_OPENAI_API_KEY else None
      | None \<Rightarrow> if DEFAULT_OPENAI_API_KEY \<noteq> [] then Some DEFAULT_OPENAI_API_KEY else None)"

text \<open>A number in a template literal: its decimal digits.\<close>

fun decimal :: "nat \<Rightarrow> jsstring" where
  "decimal n = (if n < 10 then [48 + n] else decimal (n div 10) @ [48 + n mod 10])"

declare decimal.simps [simp del]

text \<open>
  \<open>sendChatMessagesAndGetReply\<close>: \<open>Inl\<close> is the message of the \<open>Error\<close> it throws,
  \<open>Inr\<close> the content it returns, \<open>None\<close> for \<open>null\<close> or \<open>undefined\<close>. The request is
  recorded when \<open>fetch\<close> is called, after the check of the key.
\<close>

definition sendChatMessagesAndGetReply ::
  "env \<Rightarrow> message option list \<Rightarrow> state \<Rightarrow> (jsstring + jsstring option) \<times> state" where
  "sendChatMessagesAndGetReply env messages st =
     (case getApiKey env of
        None \<Rightarrow>
          (Inl (str ''OpenAI API key not set. Create a local secrets.js with: const OPENAI_API_KEY = 'sk-...'; and add it to .gitignore.''),
           st)
      | Some apiKey \<Rightarrow>
          (let st' = st\<lparr>requests := requests st @ [messages]\<rparr>
           in case fetch env apiKey messages of
                Rejected err \<Rightarrow> (Inl err, st')
              | NotOk status text \<Rightarrow>
                  (Inl (str ''API error '' @ decimal status @ str '': '' @ text), st')
              | Ok replyContent \<Rightarrow> (Inr replyContent, st')))"

text \<open>
  \<^verbatim>\<open>
  if (!assistantContent) throw new Error("No reply content returned from the API.");
  \<close>
  written after both calls of \<open>sendChatMessagesAndGetReply\<close>: a missing or empty content
  becomes an error.
\<close>

definition requireContent :: "jsstring + jsstring option \<Rightarrow> jsstring + jsstring" where
  "requireContent reply =
     (case reply of
        Inl err \<Rightarrow> Inl err
      | Inr None \<Rightarrow> Inl (str ''No reply content returned from the API.'')
      | Inr (Some assistantContent) \<Rightarrow>
          if assistantContent = [] then Inl (str ''No reply content returned from the API.'')
          else Inr assistantContent)"

section \<open>Routine generation\<close>

text \<open>The hidden message of a routine request: the instruction, then the payload.\<close>

definition userPayload :: "env \<Rightarrow> jsobject list \<Rightarrow> message" where
  "userPayload env selected =
     \<lparr>role = User,
      content = str ''Here are the selected products (minimal data only). Create a routine using only these items. For each step, mention which product(s) to use and why.''
                @ [10, 10] @ stringify env selected\<rparr>"

text \<open>
  \<open>generateRoutine\<close>, run to its end: the two early returns, then the hidden push, the
  request, and the \<open>try\<close>/\<open>catch\<close>/\<open>finally\<close> around the call.
\<close>

definition generateRoutine :: "env \<Rightarrow> state \<Rightarrow> state" where
  "generateRoutine env st =
     (let selected = getSelectedProductsPayload st
      in if selected = [] then st\<lparr>chatWindow := SelectAtLeastOne\<rparr>
         else if getApiKey env = None then st\<lparr>chatWindow := ApiKeyNotSet\<rparr>
         else
           let st1 = pushHidden (userPayload env selected) st;
               messages = messagesForApi st1;
               st2 = st1\<lparr>chatWindow := GeneratingRoutine, generateRoutineBtnDisabled := True\<rparr>;
               (reply, st3) = sendChatMessagesAndGetReply env messages st2;
               st4 = (case requireContent reply of
                        Inr assistantContent \<Rightarrow>
                          renderChatWindow
                            (pushConversation \<lparr>role = Assistant, content = assistantContent\<rparr> st3)
                      | Inl err \<Rightarrow> st3\<lparr>chatWindow := ErrorGeneratingRoutine err\<rparr>)
           in st4\<lparr>generateRoutineBtnDisabled := False\<rparr>)"

section \<open>Topic gate\<close>

definition allowedKeywords :: "jsstring list" where
  "allowedKeywords = map str
     [''routine'', ''product'', ''skincare'', ''skin'', ''haircare'', ''hair'', ''makeup'',
      ''mascara'', ''foundation'', ''fragrance'', ''scent'', ''sunscreen'', ''spf'',
      ''cleanser'', ''moisturizer'', ''serum'', ''retinol'', ''vitamin c'', ''hydration'',
      ''acne'', ''tone'', ''texture'', ''conditioner'', ''shampoo'', ''apply'',
      ''when to use'', ''how to use'', ''step'', ''steps'', ''morning'', ''night'', ''pm'',
      ''am'', ''routine step'']"

text \<open>
  The body of the loop over \<open>allProducts\<close>: does the lower-cased text mention this
  product's name or brand?
\<close>

definition mentions :: "env \<Rightarrow> jsstring \<Rightarrow> product \<Rightarrow> bool" where
  "mentions env s p =
     (let lname = toLowerCase (unicodeLower env) (name p);
          lbrand = toLowerCase (unicodeLower env) (brand p)
      in (lname \<noteq> [] \<and> includesStr s lname) \<or> (lbrand \<noteq> [] \<and> includesStr s lbrand))"

text \<open>
  \<^verbatim>\<open>
  function isAllowedQuestion(text) {
    if (!text || !text.trim()) return false;
    const s = text.toLowerCase();
    for (const k of allowedKeywords) { if (s.includes(k)) return true; }
    for (const p of allProducts) { ... if (name && s.includes(name)) return true;
                                       if (brand && s.includes(brand)) return true; }
    return false;
  }
  \<close>
  The catalog is the global \<open>allProducts\<close>, an argument here; the environment gives the
  lower-casing of the engine.
\<close>

definition isAllowedQuestion :: "env \<Rightarrow> product list \<Rightarrow> jsstring \<Rightarrow> bool" where
  "isAllowedQuestion env products text =
     (if text = [] \<or> trim text = [] then False
      else let s = toLowerCase (unicodeLower env) text
           in if list_ex (includesStr s) allowedKeywords then True
              else list_ex (mentions env s) products)"

section \<open>Follow-up questions\<close>

definition refusal :: message where
  "refusal =
     \<lparr>role = Assistant,
      content = str ''I can only help with the generated routine or questions about skincare, haircare, makeup, fragrance, or how to use the products. Please rephrase your question to relate to those topics.''\<rparr>"

definition placeholder :: message where
  "placeholder = \<lparr>role = Assistant, content = str ''...''\<rparr>"

text \<open>
  The submit handler runs up to its \<open>await\<close> and ends there, or is left waiting for the
  reply with the index of its placeholder and the request it has built.
\<close>

datatype submission = Finished state | Awaiting state nat "message option list"

definition submitBegin :: "env \<Rightarrow> state \<Rightarrow> submission" where
  "submitBegin env st =
     (let text = trim (userInput st)
      in if text = [] then Finished st
         else if getApiKey env = None then Finished (st\<lparr>chatWindow := ApiKeyNotSet\<rparr>)
         else if \<not> isAllowedQuestion env (allProducts st) text
           then Finished ((renderChatWindow (pushConversation refusal st))\<lparr>userInput := []\<rparr>)
         else
           let st1 = renderChatWindow (pushConversation \<lparr>role = User, content = text\<rparr> st);
               st2 = st1\<lparr>userInput := []\<rparr>;
               loadingIndex = length (conversationMessages (pushConversation placeholder st2)) - 1;
               st3 = renderChatWindow (pushConversation placeholder st2)
           in Awaiting st3 loadingIndex (messagesForApi st3))"

text \<open>
  The text that replaces the placeholder: the reply, or the message of the \<open>catch\<close>.
\<close>

definition finalContent :: "jsstring + jsstring option \<Rightarrow> jsstring" where
  "finalContent reply =
     (case requireContent reply of
        Inr assistantContent \<Rightarrow> assistantContent
      | Inl err \<Rightarrow> str ''Error responding: '' @ err)"

text \<open>
  The handler after the \<open>await\<close>: \<open>conversationMessages[loadingIndex] = ...\<close> in the
  \<open>try\<close> or in the \<open>catch\<close>, then \<open>renderChatWindow()\<close>.
\<close>

definition submitResume :: "state \<Rightarrow> nat \<Rightarrow> jsstring + jsstring option \<Rightarrow> state option" where
  "submitResume st loadingIndex reply =
     (case assignIndex (conversationMessages st) loadingIndex
             \<lparr>role = Assistant, content = finalContent reply\<rparr> of
        None \<Rightarrow> None
      | Some msgs \<Rightarrow> Some (renderChatWindow (st\<lparr>conversationMessages := msgs\<rparr>)))"

text \<open>The whole handler, the call answered by the endpoint of \<open>env\<close>.\<close>

definition chatFormSubmit :: "env \<Rightarrow> state \<Rightarrow> state option" where
  "chatFormSubmit env st =
     (case submitBegin env st of
        Finished st' \<Rightarrow> Some st'
      | Awaiting st1 loadingIndex messages \<Rightarrow>
          (let (reply, st2) = sendChatMessagesAndGetReply env messages st1
           in submitResume st2 loadingIndex reply))"

section \<open>Sequences of appends\<close>

datatype append = AppendHidden jsstring | AppendVisible role jsstring

fun doAppend :: "state \<Rightarrow> append \<Rightarrow> state" where
  "doAppend st (AppendHidden c) = appendHidden c st"
| "doAppend st (AppendVisible r c) = appendVisible r c st"

definition doAppends :: "append list \<Rightarrow> state \<Rightarrow> state" where
  "doAppends calls st = foldl doAppend st calls"

text \<open>The messages a sequence of appends adds to each log, in the order of the calls.\<close>

fun hiddenOf :: "append list \<Rightarrow> message list" where
  "hiddenOf [] = []"
| "hiddenOf (AppendHidden c # calls) = \<lparr>role = User, content = c\<rparr> # hiddenOf calls"
| "hiddenOf (AppendVisible r c # calls) = hiddenOf calls"

fun visibleOf :: "append list \<Rightarrow> message list" where
  "visibleOf [] = []"
| "visibleOf (AppendHidden c # calls) = visibleOf calls"
| "visibleOf (AppendVisible r c # calls) = \<lparr>role = r, content = c\<rparr> # visibleOf calls"

section \<open>A small catalog and three environments\<close>

text \<open>
  The catalog of one product whose description is 500 times the letter A, with that
  product selected; an environment without a credential; one whose endpoint refuses
  every request with status 500; and one whose endpoint answers every request. Their
  lower-casing beyond Basic Latin is the engine's cut down to one entry of its tables,
  the Kelvin sign U+212A, which becomes the letter k.
\<close>

definition kelvinLower :: "jsstring \<Rightarrow> jsstring" where
  "kelvinLower s = map (\<lambda>c. if c = 8490 then 107 else lowerUnit c) s"

definition hydraSerum :: product where
  "hydraSerum =
     \<lparr>pid = 1, name = str ''Hydra Serum'', brand = str ''GlowCo'',
      category = str ''skincare'', imageRef = str ''img/hydra.png'',
      description = replicate 500 65\<rparr>"

definition selectedState :: state where
  "selectedState = (initialState [hydraSerum])\<lparr>selectedProductIds := [1]\<rparr>"

definition noKeyEnv :: env where
  "noKeyEnv =
     \<lparr>OPENAI_API_KEY = None, stringify = (\<lambda>selected. concat (map (concat \<circ> map snd) selected)),
      fetch = (\<lambda>apiKey messages. Ok (Some (str ''Use the serum at night.''))),
      unicodeLower = kelvinLower\<rparr>"

definition failingEnv :: env where
  "failingEnv =
     \<lparr>OPENAI_API_KEY = Some (str ''sk-local''),
      stringify = (\<lambda>selected. concat (map (concat \<circ> map snd) selected)),
      fetch = (\<lambda>apiKey messages. NotOk 500 (str ''overloaded'')),
      unicodeLower = kelvinLower\<rparr>"

definition answeringEnv :: env where
  "answeringEnv =
     \<lparr>OPENAI_API_KEY = Some (str ''sk-local''),
      stringify = (\<lambda>selected. concat (map (concat \<circ> map snd) selected)),
      fetch = (\<lambda>apiKey messages. Ok (Some (str ''Use the serum at night.''))),
      unicodeLower = kelvinLower\<rparr>"

text \<open>
  A description of 500 code units with one space, at index 299, and the state in which
  the selected product carries it.
\<close>

definition spacedDescription :: jsstring where
  "spacedDescription = replicate 299 65 @ [SPACE] @ replicate 200 65"

definition spacedState :: state where
  "spacedState =
     (initialState [hydraSerum\<lparr>description := spacedDescription\<rparr>])\<lparr>selectedProductIds := [1]\<rparr>"


definition offTopicState :: state where
  "offTopicState = selectedState\<lparr>userInput := str ''What's today's stock market doing?''\<rparr>"

text \<open>
  The on-topic question as a message, and the state the handler is in while it waits
  for the reply to it.
\<close>

definition question :: message where
  "question = \<lparr>role = User, content = str ''How do I apply the serum?''\<rparr>"


section \<open>Notions used in the proofs\<close>

text \<open>
  A string as \<open>replace(/\s+/g, " ").trim()\<close> leaves it: its only white space is single
  spaces, none at either end.
\<close>

definition noRun :: "nat \<Rightarrow> nat \<Rightarrow> bool" where
  "noRun c d \<longleftrightarrow> \<not> (isWhiteSpace c \<and> isWhiteSpace d)"

definition clean :: "jsstring \<Rightarrow> bool" where
  "clean s \<longleftrightarrow>
     (\<forall>c \<in> set s. isWhiteSpace c \<longrightarrow> c = SPACE) \<and> successively noRun s \<and>
     (s \<noteq> [] \<longrightarrow> \<not> isWhiteSpace (hd s) \<and> \<not> isWhiteSpace (last s))"

section \<open>Properties of the sanitizer\<close>

lemma isWhiteSpace_SPACE: "isWhiteSpace SPACE"
  by (simp add: isWhiteSpace_def SPACE_def)

lemma not_isWhiteSpace_ELLIPSIS: "\<not> isWhiteSpace ELLIPSIS"
  by (simp add: isWhiteSpace_def ELLIPSIS_def)

lemma collapse_Nil_iff: "collapseWhitespace s = [] \<longleftrightarrow> s = []"
  by (cases s) auto

lemma collapse_hd: "s \<noteq> [] \<Longrightarrow> isWhiteSpace (hd (collapseWhitespace s)) = isWhiteSpace (hd s)"
  by (cases s) (auto simp: isWhiteSpace_SPACE)

lemma collapse_units: "c \<in> set (collapseWhitespace s) \<Longrightarrow> isWhiteSpace c \<Longrightarrow> c = SPACE"
  by (induction s rule: collapseWhitespace.induct) (auto split: if_splits)

lemma collapse_noRun: "successively noRun (collapseWhitespace s)"
proof (induction s rule: collapseWhitespace.induct)
  case 1
  show ?case by simp
next
  case (2 c cs)
  show ?case
  proof (cases "isWhiteSpace c")
    case True
    let ?r = "dropWhile isWhiteSpace cs"
    have "?r \<noteq> [] \<Longrightarrow> \<not> isWhiteSpace (hd (collapseWhitespace ?r))"
      using hd_dropWhile [of isWhiteSpace cs] by (simp add: collapse_hd)
    with True 2 show ?thesis
      by (auto simp: successively_Cons collapse_Nil_iff noRun_def)
  next
    case False
    with 2 show ?thesis
      by (auto simp: successively_Cons noRun_def)
  qed
qed

lemma collapse_id:
  "\<forall>c \<in> set s. isWhiteSpace c \<longrightarrow> c = SPACE \<Longrightarrow> successively noRun s \<Longrightarrow> collapseWhitespace s = s"
proof (induction s rule: collapseWhitespace.induct)
  case 1
  show ?case by simp
next
  case (2 c cs)
  show ?case
  proof (cases "isWhiteSpace c")
    case True
    with 2(3,4) have "cs = [] \<or> \<not> isWhiteSpace (hd cs)" and sc: "successively noRun cs"
      by (auto simp: successively_Cons noRun_def)
    then have dw: "dropWhile isWhiteSpace cs = cs"
      by (cases cs) auto
    from True 2(3) have "c = SPACE" by simp
    with True dw sc 2(1)[OF True] 2(3) show ?thesis by simp
  next
    case False
    with 2 show ?thesis by (auto simp: successively_Cons)
  qed
qed

lemma trimEnd_decomp: "s = trimEnd s @ rev (takeWhile isWhiteSpace (rev s))"
proof -
  have "rev (takeWhile isWhiteSpace (rev s) @ dropWhile isWhiteSpace (rev s)) = s"
    by (simp only: takeWhile_dropWhile_id rev_rev_ident)
  then show ?thesis by (simp only: trimEnd_def rev_append)
qed

lemma trim_decomp: "\<exists>a b. s = a @ trim s @ b"
proof -
  have "s = takeWhile isWhiteSpace s @ dropWhile isWhiteSpace s" by simp
  moreover have "dropWhile isWhiteSpace s = trim s @ rev (takeWhile isWhiteSpace (rev (dropWhile isWhiteSpace s)))"
    unfolding trim_def by (rule trimEnd_decomp)
  ultimately have "s = takeWhile isWhiteSpace s @ trim s @ rev (takeWhile isWhiteSpace (rev (dropWhile isWhiteSpace s)))"
    by simp
  then show ?thesis by blast
qed

lemma set_trim: "set (trim s) \<subseteq> set s"
proof -
  obtain a b where "s = a @ trim s @ b" using trim_decomp by blast
  then have "set s = set a \<union> set (trim s) \<union> set b" by (metis set_append sup_assoc)
  then show ?thesis by blast
qed

lemma noRun_trim: "successively noRun s \<Longrightarrow> successively noRun (trim s)"
proof -
  assume a: "successively noRun s"
  obtain x y where "s = x @ trim s @ y" using trim_decomp by blast
  with a have "successively noRun (x @ trim s @ y)" by simp
  then show ?thesis by (simp add: successively_append_iff)
qed

lemma length_trim: "length (trim s) \<le> length s"
proof -
  obtain x y where "s = x @ trim s @ y" using trim_decomp by blast
  then have "length s = length x + length (trim s) + length y" by (metis length_append add.assoc)
  then show ?thesis by simp
qed

lemma trimEnd_id: "s = [] \<or> \<not> isWhiteSpace (last s) \<Longrightarrow> trimEnd s = s"
  by (cases s rule: rev_cases) (auto simp: trimEnd_def)

lemma trim_id: "s = [] \<or> (\<not> isWhiteSpace (hd s) \<and> \<not> isWhiteSpace (last s)) \<Longrightarrow> trim s = s"
proof -
  assume a: "s = [] \<or> (\<not> isWhiteSpace (hd s) \<and> \<not> isWhiteSpace (last s))"
  then have "dropWhile isWhiteSpace s = s" by (cases s) auto
  moreover from a have "trimEnd s = s" by (intro trimEnd_id) blast
  ultimately show ?thesis by (simp add: trim_def)
qed

lemma trimEnd_last: "trimEnd s \<noteq> [] \<Longrightarrow> \<not> isWhiteSpace (last (trimEnd s))"
  using hd_dropWhile [of isWhiteSpace "rev s"] by (simp add: trimEnd_def last_rev)

lemma trimEnd_hd: "trimEnd s \<noteq> [] \<Longrightarrow> hd (trimEnd s) = hd s"
proof -
  assume a: "trimEnd s \<noteq> []"
  have "s = trimEnd s @ rev (takeWhile isWhiteSpace (rev s))" by (rule trimEnd_decomp)
  then have "hd s = hd (trimEnd s @ rev (takeWhile isWhiteSpace (rev s)))" by simp
  with a show ?thesis by simp
qed

lemma trim_ends: "trim s \<noteq> [] \<Longrightarrow> \<not> isWhiteSpace (hd (trim s)) \<and> \<not> isWhiteSpace (last (trim s))"
proof -
  assume a: "trim s \<noteq> []"
  have ne: "dropWhile isWhiteSpace s \<noteq> []"
  proof
    assume e: "dropWhile isWhiteSpace s = []"
    have "trim s = trimEnd []" unfolding trim_def e ..
    with a show False by (simp add: trimEnd_def)
  qed
  from a have "hd (trim s) = hd (dropWhile isWhiteSpace s)" by (simp add: trim_def trimEnd_hd)
  moreover from ne have "\<not> isWhiteSpace (hd (dropWhile isWhiteSpace s))" by (rule hd_dropWhile)
  moreover from a have "\<not> isWhiteSpace (last (trim s))" by (simp add: trim_def trimEnd_last)
  ultimately show ?thesis by simp
qed

lemma trim_trim: "trim (trim s) = trim s"
  using trim_ends [of s] by (intro trim_id) blast

lemma trim_same_length: "length (trim s) = length s \<Longrightarrow> trim s = s"
proof -
  assume a: "length (trim s) = length s"
  obtain x y where d: "s = x @ trim s @ y" using trim_decomp by blast
  then have "length s = length x + length (trim s) + length y" by (metis length_append add.assoc)
  with a have "x = [] \<and> y = []" by simp
  with d show ?thesis by simp
qed

lemma clean_trim_collapse: "clean (trim (collapseWhitespace t))"
  unfolding clean_def
  using set_trim [of "collapseWhitespace t"] collapse_units [of _ t]
    noRun_trim [OF collapse_noRun, of t] trim_ends [of "collapseWhitespace t"]
  by blast

lemma clean_fixed: "clean s \<Longrightarrow> trim (collapseWhitespace s) = s"
proof -
  assume a: "clean s"
  then have "collapseWhitespace s = s" by (simp add: clean_def collapse_id)
  moreover from a have "trim s = s" unfolding clean_def by (intro trim_id) blast
  ultimately show ?thesis by simp
qed

lemma clean_cut:
  assumes "clean s"
  shows "clean (trim (take n s) @ [ELLIPSIS])"
proof -
  let ?u = "trim (take n s)"
  have "set ?u \<subseteq> set s" using set_trim [of "take n s"] set_take_subset [of n s] by blast
  with assms have units: "\<forall>c \<in> set (?u @ [ELLIPSIS]). isWhiteSpace c \<longrightarrow> c = SPACE"
    by (auto simp: clean_def not_isWhiteSpace_ELLIPSIS)
  from assms have "successively noRun (take n s @ drop n s)" by (simp add: clean_def)
  then have "successively noRun (take n s)" unfolding successively_append_iff by blast
  then have "successively noRun ?u" by (rule noRun_trim)
  then have runs: "successively noRun (?u @ [ELLIPSIS])"
    by (simp add: successively_append_iff noRun_def not_isWhiteSpace_ELLIPSIS)
  have ends: "\<not> isWhiteSpace (hd (?u @ [ELLIPSIS])) \<and> \<not> isWhiteSpace (last (?u @ [ELLIPSIS]))"
    using trim_ends [of "take n s"] by (cases "?u = []") (simp_all add: not_isWhiteSpace_ELLIPSIS)
  from units runs ends show ?thesis by (simp add: clean_def)
qed

lemma sanitizeText_twice:
  "sanitizeText (sanitizeText text maxLen) maxLen = sanitizeText text maxLen"
proof (cases "text = []")
  case True
  then show ?thesis by (simp add: sanitizeText_def)
next
  case False
  let ?s = "trim (collapseWhitespace text)"
  have cs: "clean ?s" by (rule clean_trim_collapse)
  show ?thesis
  proof (cases "length ?s > maxLen")
    case short: False
    with False have r: "sanitizeText text maxLen = ?s" by (simp add: sanitizeText_def)
    from short show ?thesis unfolding r by (simp add: sanitizeText_def clean_fixed [OF cs])
  next
    case long: True
    let ?u = "trim (take maxLen ?s)"
    let ?o = "?u @ [ELLIPSIS]"
    from False long have r: "sanitizeText text maxLen = ?o" by (simp add: sanitizeText_def Let_def)
    have fx: "trim (collapseWhitespace ?o) = ?o" using clean_cut [OF cs] by (rule clean_fixed)
    show ?thesis
    proof (cases "length ?o > maxLen")
      case False
      then show ?thesis unfolding r by (simp add: sanitizeText_def fx del: append_eq_append_conv)
    next
      case True
      have "length ?u \<le> length (take maxLen ?s)" by (rule length_trim)
      with True long have len: "length ?u = maxLen" by simp
      with long have "length ?u = length (take maxLen ?s)" by simp
      then have "?u = take maxLen ?s" by (rule trim_same_length)
      with len have "take maxLen ?o = ?u" by simp
      then have "trim (take maxLen ?o) = ?u" by (simp add: trim_trim)
      with True show ?thesis unfolding r by (simp add: sanitizeText_def fx Let_def)
    qed
  qed
qed


text \<open>
  C4. Sanitizing twice with the same limit is sanitizing once, for every text and every
  limit. In particular \<open>sanitizeText("a    b    c    extra words here", 10)\<close> is the ten
  code units \<open>a b c extr\<close> followed by the ellipsis, eleven code units in all, and
  sanitizing that string again with limit 10 returns it unchanged.
\<close>

theorem sanitizeText_idempotent:
  "sanitizeText (sanitizeText text maxLen) maxLen = sanitizeText text maxLen \<and>
   sanitizeText (str ''a    b    c    extra words here'') 10 = str ''a b c extr'' @ [ELLIPSIS] \<and>
   length (str ''a b c extr'') = 10 \<and>
   sanitizeText (str ''a b c extr'' @ [ELLIPSIS]) 10 = str ''a b c extr'' @ [ELLIPSIS]"
proof -
  have ex: "sanitizeText (str ''a    b    c    extra words here'') 10 = str ''a b c extr'' @ [ELLIPSIS]"
    by (simp add: sanitizeText_def str_def trim_def trimEnd_def isWhiteSpace_def SPACE_def)
  have "sanitizeText (sanitizeText (str ''a    b    c    extra words here'') 10) 10
          = sanitizeText (str ''a    b    c    extra words here'') 10"
    by (rule sanitizeText_twice)
  then have again: "sanitizeText (str ''a b c extr'' @ [ELLIPSIS]) 10 = str ''a b c extr'' @ [ELLIPSIS]"
    by (simp only: ex)
  have len: "length (str ''a b c extr'') = 10" by (simp add: str_def)
  from sanitizeText_twice ex len again show ?thesis by blast
qed

section \<open>Order of an assembled request\<close>

lemma doAppends_hidden:
  "hiddenApiMessages (doAppends calls st) = hiddenApiMessages st @ hiddenOf calls"
  unfolding doAppends_def
proof (induction calls arbitrary: st)
  case Nil
  show ?case by simp
next
  case (Cons a calls)
  show ?case
    by (cases a) (simp_all add: Cons appendHidden_def appendVisible_def pushHidden_def pushConversation_def)
qed

lemma doAppends_visible:
  "conversationMessages (doAppends calls st) = conversationMessages st @ visibleOf calls"
  unfolding doAppends_def
proof (induction calls arbitrary: st)
  case Nil
  show ?case by simp
next
  case (Cons a calls)
  show ?case
    by (cases a) (simp_all add: Cons appendHidden_def appendVisible_def pushHidden_def pushConversation_def)
qed

text \<open>
  C1. After any sequence of hidden and visible appends, in whatever order they are
  interleaved, the assembled request is the system directive, then every hidden message
  in the order it was appended, then every visible message in the order it was appended.
  This holds from the initial state, and from every state whose conversation starts with
  the system directive (the messages already in the two logs come before the new ones).
\<close>

theorem messagesForApi_order:
  "messagesForApi (doAppends calls (initialState products)) =
     map Some ([systemDirective] @ hiddenOf calls @ visibleOf calls) \<and>
   (conversationMessages st = systemDirective # visible \<longrightarrow>
      messagesForApi (doAppends calls st) =
        map Some ([systemDirective] @ (hiddenApiMessages st @ hiddenOf calls) @ (visible @ visibleOf calls)))"
  by (simp add: messagesForApi_def index_def doAppends_hidden doAppends_visible initialState_def)

theorem messagesForApi_order_witness:
  "conversationMessages selectedState = systemDirective # [] \<and>
   messagesForApi
     (doAppends [AppendVisible User (str ''hi''), AppendHidden (str ''p1''),
                 AppendVisible Assistant (str ''yo''), AppendHidden (str ''p2'')] selectedState) =
     [Some systemDirective, Some \<lparr>role = User, content = str ''p1''\<rparr>,
      Some \<lparr>role = User, content = str ''p2''\<rparr>, Some \<lparr>role = User, content = str ''hi''\<rparr>,
      Some \<lparr>role = Assistant, content = str ''yo''\<rparr>]"
proof -
  have h: "conversationMessages selectedState = systemDirective # []"
    by (simp add: selectedState_def initialState_def)
  have e: "hiddenApiMessages selectedState = []"
    by (simp add: selectedState_def initialState_def)
  from h e messagesForApi_order [of "[AppendVisible User (str ''hi''), AppendHidden (str ''p1''),
                 AppendVisible Assistant (str ''yo''), AppendHidden (str ''p2'')]" "[]" selectedState "[]"]
  show ?thesis by simp
qed

section \<open>The topic gate\<close>

lemma includesStr_sublist: "includesStr s k \<longleftrightarrow> sublist k s"
  by (induction s) (simp_all add: sublist_Cons_right)

lemma trimEnd_Nil_iff: "trimEnd s = [] \<longleftrightarrow> (\<forall>c \<in> set s. isWhiteSpace c)"
  by (simp add: trimEnd_def dropWhile_eq_Nil_conv)

lemma trim_Nil_iff: "trim s = [] \<longleftrightarrow> (\<forall>c \<in> set s. isWhiteSpace c)"
proof
  assume "trim s = []"
  then have "trimEnd (dropWhile isWhiteSpace s) = []" by (simp only: trim_def)
  then have a: "\<forall>c \<in> set (dropWhile isWhiteSpace s). isWhiteSpace c"
    by (simp only: trimEnd_Nil_iff)
  have "dropWhile isWhiteSpace s = []"
  proof (rule ccontr)
    assume ne: "dropWhile isWhiteSpace s \<noteq> []"
    then have "\<not> isWhiteSpace (hd (dropWhile isWhiteSpace s))" by (rule hd_dropWhile)
    with a ne show False by (meson hd_in_set)
  qed
  then show "\<forall>c \<in> set s. isWhiteSpace c" by (simp only: dropWhile_eq_Nil_conv)
next
  assume "\<forall>c \<in> set s. isWhiteSpace c"
  then have "dropWhile isWhiteSpace s = []" by (simp only: dropWhile_eq_Nil_conv)
  then have "trim s = trimEnd []" by (simp only: trim_def)
  then show "trim s = []" by (simp add: trimEnd_def)
qed

lemma toLowerCase_ascii:
  assumes "\<forall>c \<in> set s. c < 128"
  shows "toLowerCase table s = map (\<lambda>c. if 65 \<le> c \<and> c \<le> 90 then c + 32 else c) s"
proof -
  from assms have "list_all (\<lambda>c. c < 128) s" by (simp add: list_all_iff)
  then have "toLowerCase table s = map lowerUnit s" by (simp add: toLowerCase_def)
  also have "\<dots> = map (\<lambda>c. if 65 \<le> c \<and> c \<le> 90 then c + 32 else c) s"
    by (simp add: lowerUnit_def)
  finally show ?thesis .
qed

lemma toLowerCase_beyond:
  assumes "\<exists>c \<in> set s. 128 \<le> c"
  shows "toLowerCase table s = table s"
proof -
  from assms have "\<not> list_all (\<lambda>c. c < 128) s" by (auto simp: list_all_iff not_less)
  then show ?thesis by (simp add: toLowerCase_def)
qed

lemma mentions_iff:
  "mentions env s p \<longleftrightarrow>
     (toLowerCase (unicodeLower env) (name p) \<noteq> [] \<and>
      sublist (toLowerCase (unicodeLower env) (name p)) s) \<or>
     (toLowerCase (unicodeLower env) (brand p) \<noteq> [] \<and>
      sublist (toLowerCase (unicodeLower env) (brand p)) s)"
  by (simp add: mentions_def Let_def includesStr_sublist)

lemma isAllowedQuestion_char:
  "isAllowedQuestion env products text \<longleftrightarrow>
     (\<exists>c \<in> set text. \<not> isWhiteSpace c) \<and>
     ((\<exists>k \<in> set allowedKeywords. sublist k (toLowerCase (unicodeLower env) text)) \<or>
      (\<exists>p \<in> set products.
         (toLowerCase (unicodeLower env) (name p) \<noteq> [] \<and>
          sublist (toLowerCase (unicodeLower env) (name p)) (toLowerCase (unicodeLower env) text)) \<or>
         (toLowerCase (unicodeLower env) (brand p) \<noteq> [] \<and>
          sublist (toLowerCase (unicodeLower env) (brand p)) (toLowerCase (unicodeLower env) text))))"
proof (cases "trim text = []")
  case True
  then have "isAllowedQuestion env products text = False" by (simp add: isAllowedQuestion_def)
  moreover from True have "\<not> (\<exists>c \<in> set text. \<not> isWhiteSpace c)" by (simp add: trim_Nil_iff)
  ultimately show ?thesis by blast
next
  case False
  then have ne: "text \<noteq> []" by (auto simp: trim_def trimEnd_def)
  from False have ws: "\<exists>c \<in> set text. \<not> isWhiteSpace c" by (simp add: trim_Nil_iff)
  from False ne have "isAllowedQuestion env products text \<longleftrightarrow>
      list_ex (includesStr (toLowerCase (unicodeLower env) text)) allowedKeywords \<or>
      list_ex (mentions env (toLowerCase (unicodeLower env) text)) products"
    by (simp add: isAllowedQuestion_def Let_def)
  with ws show ?thesis by (simp add: list_ex_iff includesStr_sublist mentions_iff)
qed

lemma serum_lower:
  "toLowerCase table (str ''What time should I apply my serum?'') =
     str ''what time should i apply my serum?''"
  by (simp add: str_def toLowerCase_def lowerUnit_def)

lemma capitals_lower: "toLowerCase table (str ''SPF OR SERUM?'') = str ''spf or serum?''"
  by (simp add: str_def toLowerCase_def lowerUnit_def)

lemma market_lower:
  "toLowerCase table (str ''What's today's stock market doing?'') =
     str ''what's today's stock market doing?''"
  by (simp add: str_def toLowerCase_def lowerUnit_def)

lemma serum_allowed: "isAllowedQuestion env products (str ''What time should I apply my serum?'')"
proof -
  have "trim (str ''What time should I apply my serum?'') \<noteq> []"
    by (simp add: str_def trim_def trimEnd_def isWhiteSpace_def)
  moreover have "includesStr (str ''what time should i apply my serum?'') (str ''serum'')"
    by (simp add: str_def)
  moreover have "str ''serum'' \<in> set allowedKeywords" by (simp add: allowedKeywords_def)
  moreover have "str ''What time should I apply my serum?'' \<noteq> []" by (simp add: str_def)
  ultimately show ?thesis
    by (auto simp: isAllowedQuestion_def Let_def serum_lower list_ex_iff)
qed

lemma capitals_allowed: "isAllowedQuestion env products (str ''SPF OR SERUM?'')"
proof -
  have "trim (str ''SPF OR SERUM?'') \<noteq> []"
    by (simp add: str_def trim_def trimEnd_def isWhiteSpace_def)
  moreover have "includesStr (str ''spf or serum?'') (str ''spf'')"
    by (simp add: str_def)
  moreover have "str ''spf'' \<in> set allowedKeywords" by (simp add: allowedKeywords_def)
  moreover have "str ''SPF OR SERUM?'' \<noteq> []" by (simp add: str_def)
  ultimately show ?thesis
    by (auto simp: isAllowedQuestion_def Let_def capitals_lower list_ex_iff)
qed

lemma market_no_keyword:
  "\<not> list_ex (includesStr (str ''what's today's stock market doing?'')) allowedKeywords"
  by (simp add: allowedKeywords_def str_def)

lemma market_trim: "trim (str ''What's today's stock market doing?'') \<noteq> []"
  by (simp add: str_def trim_def trimEnd_def isWhiteSpace_def)

lemma market_gate:
  "isAllowedQuestion env products (str ''What's today's stock market doing?'') \<longleftrightarrow>
     list_ex (mentions env (str ''what's today's stock market doing?'')) products"
proof -
  have "str ''What's today's stock market doing?'' \<noteq> []" by (simp add: str_def)
  with market_trim market_no_keyword show ?thesis
    by (simp add: isAllowedQuestion_def Let_def market_lower)
qed

text \<open>
  C3. \<open>isAllowedQuestion\<close> is true exactly when the text has a code unit that is not
  white space (so it is false on the empty and on a white-space-only text) and its
  lower-cased form contains a keyword of the allow-list, or the lower-cased name or
  brand of a product of the catalog, when that is not empty, as a contiguous substring.
  Lower-casing a text of Basic Latin moves A to Z up by 32 and leaves the rest; any other
  text is lower-cased by the engine. The question about applying a serum is allowed
  whatever the catalog, and so is one written in capitals; the question about the stock
  market is refused whenever no name and no brand of the catalog occurs in it.
\<close>

theorem isAllowedQuestion_iff:
  "(isAllowedQuestion env products text \<longleftrightarrow>
     (\<exists>c \<in> set text. \<not> isWhiteSpace c) \<and>
     ((\<exists>k \<in> set allowedKeywords. sublist k (toLowerCase (unicodeLower env) text)) \<or>
      (\<exists>p \<in> set products.
         (toLowerCase (unicodeLower env) (name p) \<noteq> [] \<and>
          sublist (toLowerCase (unicodeLower env) (name p)) (toLowerCase (unicodeLower env) text)) \<or>
         (toLowerCase (unicodeLower env) (brand p) \<noteq> [] \<and>
          sublist (toLowerCase (unicodeLower env) (brand p)) (toLowerCase (unicodeLower env) text))))) \<and>
   ((\<forall>c \<in> set text. c < 128) \<longrightarrow>
      toLowerCase (unicodeLower env) text =
        map (\<lambda>c. if 65 \<le> c \<and> c \<le> 90 then c + 32 else c) text) \<and>
   ((\<exists>c \<in> set text. 128 \<le> c) \<longrightarrow>
      toLowerCase (unicodeLower env) text = unicodeLower env text) \<and>
   isAllowedQuestion env products (str ''What time should I apply my serum?'') \<and>
   isAllowedQuestion env products (str ''SPF OR SERUM?'') \<and>
   ((\<forall>p \<in> set products.
       \<not> (toLowerCase (unicodeLower env) (name p) \<noteq> [] \<and>
          sublist (toLowerCase (unicodeLower env) (name p))
            (toLowerCase (unicodeLower env) (str ''What's today's stock market doing?''))) \<and>
       \<not> (toLowerCase (unicodeLower env) (brand p) \<noteq> [] \<and>
          sublist (toLowerCase (unicodeLower env) (brand p))
            (toLowerCase (unicodeLower env) (str ''What's today's stock market doing?''))))
    \<longrightarrow> \<not> isAllowedQuestion env products (str ''What's today's stock market doing?''))"
proof (intro conjI impI)
  show "isAllowedQuestion env products text \<longleftrightarrow>
     (\<exists>c \<in> set text. \<not> isWhiteSpace c) \<and>
     ((\<exists>k \<in> set allowedKeywords. sublist k (toLowerCase (unicodeLower env) text)) \<or>
      (\<exists>p \<in> set products.
         (toLowerCase (unicodeLower env) (name p) \<noteq> [] \<and>
          sublist (toLowerCase (unicodeLower env) (name p)) (toLowerCase (unicodeLower env) text)) \<or>
         (toLowerCase (unicodeLower env) (brand p) \<noteq> [] \<and>
          sublist (toLowerCase (unicodeLower env) (brand p)) (toLowerCase (unicodeLower env) text))))"
    by (rule isAllowedQuestion_char)
next
  assume "\<forall>c \<in> set text. c < 128"
  then show "toLowerCase (unicodeLower env) text =
        map (\<lambda>c. if 65 \<le> c \<and> c \<le> 90 then c + 32 else c) text"
    by (rule toLowerCase_ascii)
next
  assume "\<exists>c \<in> set text. 128 \<le> c"
  then show "toLowerCase (unicodeLower env) text = unicodeLower env text"
    by (rule toLowerCase_beyond)
next
  show "isAllowedQuestion env products (str ''What time should I apply my serum?'')"
    by (rule serum_allowed)
next
  show "isAllowedQuestion env products (str ''SPF OR SERUM?'')"
    by (rule capitals_allowed)
next
  assume "\<forall>p \<in> set products.
       \<not> (toLowerCase (unicodeLower env) (name p) \<noteq> [] \<and>
          sublist (toLowerCase (unicodeLower env) (name p))
            (toLowerCase (unicodeLower env) (str ''What's today's stock market doing?''))) \<and>
       \<not> (toLowerCase (unicodeLower env) (brand p) \<noteq> [] \<and>
          sublist (toLowerCase (unicodeLower env) (brand p))
            (toLowerCase (unicodeLower env) (str ''What's today's stock market doing?'')))"
  then have "\<not> list_ex (mentions env (str ''what's today's stock market doing?'')) products"
    by (simp add: list_ex_iff mentions_iff market_lower)
  then show "\<not> isAllowedQuestion env products (str ''What's today's stock market doing?'')"
    by (simp add: market_gate)
qed

lemma unicodeLower_answeringEnv: "unicodeLower answeringEnv = kelvinLower"
  by (simp add: answeringEnv_def)

lemma hydra_lower:
  "toLowerCase table (name hydraSerum) = str ''hydra serum''"
  "toLowerCase table (brand hydraSerum) = str ''glowco''"
  by (simp_all add: hydraSerum_def toLowerCase_def lowerUnit_def str_def)

lemma hydra_not_mentioned:
  "\<not> sublist (str ''hydra serum'') (str ''what's today's stock market doing?'')"
  "\<not> sublist (str ''glowco'') (str ''what's today's stock market doing?'')"
  by (simp_all add: includesStr_sublist [symmetric] str_def)

lemma kelvin_lower: "kelvinLower (str ''s'' @ [8490] @ str ''in'') = str ''skin''"
  by (simp add: kelvinLower_def lowerUnit_def str_def)

theorem isAllowedQuestion_iff_witness:
  "\<not> sublist (toLowerCase (unicodeLower answeringEnv) (name hydraSerum))
        (toLowerCase (unicodeLower answeringEnv) (str ''What's today's stock market doing?'')) \<and>
   \<not> sublist (toLowerCase (unicodeLower answeringEnv) (brand hydraSerum))
        (toLowerCase (unicodeLower answeringEnv) (str ''What's today's stock market doing?'')) \<and>
   \<not> isAllowedQuestion answeringEnv [hydraSerum] (str ''What's today's stock market doing?'') \<and>
   isAllowedQuestion answeringEnv [hydraSerum] (str ''is glowco good?'') \<and>
   isAllowedQuestion answeringEnv [hydraSerum] (str ''HYDRA SERUM'') \<and>
   toLowerCase (unicodeLower answeringEnv) (str ''Is GlowCo good?'') = str ''is glowco good?'' \<and>
   toLowerCase (unicodeLower answeringEnv) (str ''s'' @ [8490] @ str ''in'') = str ''skin'' \<and>
   isAllowedQuestion answeringEnv [] (str ''s'' @ [8490] @ str ''in'')"
proof -
  have n: "\<not> sublist (toLowerCase (unicodeLower answeringEnv) (name hydraSerum))
        (toLowerCase (unicodeLower answeringEnv) (str ''What's today's stock market doing?''))"
    and b: "\<not> sublist (toLowerCase (unicodeLower answeringEnv) (brand hydraSerum))
        (toLowerCase (unicodeLower answeringEnv) (str ''What's today's stock market doing?''))"
    by (simp_all add: hydra_lower market_lower hydra_not_mentioned)
  have a1: "\<forall>c \<in> set (str ''Is GlowCo good?''). c < 128" by (simp add: str_def)
  have a2: "\<exists>c \<in> set (str ''s'' @ [8490] @ str ''in''). 128 \<le> c" by (simp add: str_def)
  have l1: "toLowerCase (unicodeLower answeringEnv) (str ''Is GlowCo good?'') = str ''is glowco good?''"
    using a1 isAllowedQuestion_iff [of answeringEnv "[]" "str ''Is GlowCo good?''"]
    by (simp add: str_def)
  have "toLowerCase (unicodeLower answeringEnv) (str ''s'' @ [8490] @ str ''in'') =
          unicodeLower answeringEnv (str ''s'' @ [8490] @ str ''in'')"
    using a2 isAllowedQuestion_iff [of answeringEnv "[]" "str ''s'' @ [8490] @ str ''in''"]
    by blast
  then have l2: "toLowerCase (unicodeLower answeringEnv) (str ''s'' @ [8490] @ str ''in'') = str ''skin''"
    by (simp only: unicodeLower_answeringEnv kelvin_lower)
  from n b have h: "\<forall>p \<in> set [hydraSerum].
       \<not> (toLowerCase (unicodeLower answeringEnv) (name p) \<noteq> [] \<and>
          sublist (toLowerCase (unicodeLower answeringEnv) (name p))
            (toLowerCase (unicodeLower answeringEnv) (str ''What's today's stock market doing?''))) \<and>
       \<not> (toLowerCase (unicodeLower answeringEnv) (brand p) \<noteq> [] \<and>
          sublist (toLowerCase (unicodeLower answeringEnv) (brand p))
            (toLowerCase (unicodeLower answeringEnv) (str ''What's today's stock market doing?'')))"
    by simp
  have m: "\<not> isAllowedQuestion answeringEnv [hydraSerum] (str ''What's today's stock market doing?'')"
    using h isAllowedQuestion_iff [of answeringEnv "[hydraSerum]" "[]"] by blast
  have t1: "toLowerCase (unicodeLower answeringEnv) (str ''is glowco good?'') = str ''is glowco good?''"
    and t2: "toLowerCase (unicodeLower answeringEnv) (str ''HYDRA SERUM'') = str ''hydra serum''"
    by (simp_all add: toLowerCase_def lowerUnit_def str_def)
  have w1: "\<exists>c \<in> set (str ''is glowco good?''). \<not> isWhiteSpace c"
    and w2: "\<exists>c \<in> set (str ''HYDRA SERUM''). \<not> isWhiteSpace c"
    and w3: "\<exists>c \<in> set (str ''s'' @ [8490] @ str ''in''). \<not> isWhiteSpace c"
    by (simp_all add: str_def isWhiteSpace_def)
  have s1: "sublist (str ''glowco'') (str ''is glowco good?'')"
    and s2: "sublist (str ''hydra serum'') (str ''hydra serum'')"
    and s3: "sublist (str ''skin'') (str ''skin'')"
    by (simp_all add: includesStr_sublist [symmetric] str_def)
  have e1: "str ''glowco'' \<noteq> []" and e2: "str ''hydra serum'' \<noteq> []" by (simp_all add: str_def)
  have k: "str ''skin'' \<in> set allowedKeywords" by (simp add: allowedKeywords_def)
  have g1: "isAllowedQuestion answeringEnv [hydraSerum] (str ''is glowco good?'')"
    using w1 s1 e1 isAllowedQuestion_iff [of answeringEnv "[hydraSerum]" "str ''is glowco good?''"]
    by (simp add: hydra_lower t1)
  have g2: "isAllowedQuestion answeringEnv [hydraSerum] (str ''HYDRA SERUM'')"
    using w2 s2 e2 isAllowedQuestion_iff [of answeringEnv "[hydraSerum]" "str ''HYDRA SERUM''"]
    by (simp add: hydra_lower t2)
  note kelvin = conjunct1 [OF isAllowedQuestion_iff [of answeringEnv "[]" "str ''s'' @ [8490] @ str ''in''"]]
  have g3: "isAllowedQuestion answeringEnv [] (str ''s'' @ [8490] @ str ''in'')"
    unfolding kelvin l2 using w3 s3 k by blast
  from n b m g1 g2 l1 l2 g3 show ?thesis by blast
qed

section \<open>The payload\<close>

lemma noRun_no_whitespace: "\<forall>c \<in> set s. \<not> isWhiteSpace c \<Longrightarrow> successively noRun s"
  by (induction s) (auto simp: successively_Cons noRun_def)

lemma trim_no_whitespace: "\<forall>c \<in> set s. \<not> isWhiteSpace c \<Longrightarrow> trim s = s"
proof (rule trim_id)
  assume a: "\<forall>c \<in> set s. \<not> isWhiteSpace c"
  show "s = [] \<or> (\<not> isWhiteSpace (hd s) \<and> \<not> isWhiteSpace (last s))"
  proof (cases "s = []")
    case True
    then show ?thesis by simp
  next
    case False
    then have "hd s \<in> set s" and "last s \<in> set s" by simp_all
    with a show ?thesis by blast
  qed
qed

lemma sanitizeText_no_whitespace:
  assumes "\<forall>c \<in> set d. \<not> isWhiteSpace c" and "maxLen < length d"
  shows "sanitizeText d maxLen = take maxLen d @ [ELLIPSIS]"
proof -
  from assms(1) have c: "collapseWhitespace d = d"
    by (intro collapse_id noRun_no_whitespace) auto
  from assms(1) have t: "trim d = d" by (rule trim_no_whitespace)
  from assms(1) have "\<forall>c \<in> set (take maxLen d). \<not> isWhiteSpace c"
    by (meson in_set_takeD)
  then have tt: "trim (take maxLen d) = take maxLen d" by (rule trim_no_whitespace)
  from assms(2) have "d \<noteq> []" by auto
  with assms(2) show ?thesis by (simp add: sanitizeText_def c t tt)
qed

lemma length_sanitizeText: "length (sanitizeText text maxLen) \<le> maxLen + 1"
proof -
  have "length (trim (take maxLen (trim (collapseWhitespace text)))) \<le> maxLen"
    using length_trim [of "take maxLen (trim (collapseWhitespace text))"] by simp
  then show ?thesis by (simp add: sanitizeText_def Let_def)
qed

lemma find_pid_None: "find (\<lambda>x. pid x = i) ps = None \<Longrightarrow> i \<notin> pid ` set ps"
  by (induction ps) (auto split: if_splits)

lemma find_pid_Some: "find (\<lambda>x. pid x = i) ps = Some p \<Longrightarrow> i \<in> pid ` set ps"
  by (induction ps) (auto split: if_splits)

lemma payload_entries:
  "list_all2
     (\<lambda>i entry. \<exists>p. find (\<lambda>x. pid x = i) (allProducts st) = Some p \<and>
        entry = [(''name'', name p), (''brand'', brand p), (''category'', category p),
                 (''description'', sanitizeText (description p) 300)])
     (filter (\<lambda>i. i \<in> pid ` set (allProducts st)) ids)
     [entry. Some entry \<leftarrow> map (payloadEntry st) ids]"
proof (induction ids)
  case Nil
  show ?case by simp
next
  case (Cons i ids)
  show ?case
  proof (cases "find (\<lambda>x. pid x = i) (allProducts st)")
    case None
    then have "i \<notin> pid ` set (allProducts st)" by (rule find_pid_None)
    with None Cons show ?thesis by (simp add: payloadEntry_def)
  next
    case (Some p)
    then have "i \<in> pid ` set (allProducts st)" by (rule find_pid_Some)
    with Some Cons show ?thesis by (simp add: payloadEntry_def)
  qed
qed

lemma payload_keys:
  "entry \<in> set [entry. Some entry \<leftarrow> map (payloadEntry st) ids] \<Longrightarrow>
     map fst entry = [''name'', ''brand'', ''category'', ''description'']"
  by (auto simp: payloadEntry_def split: option.splits)

lemma hydra_payload:
  "getSelectedProductsPayload selectedState =
     [[(''name'', str ''Hydra Serum''), (''brand'', str ''GlowCo''), (''category'', str ''skincare''),
       (''description'', replicate 300 65 @ [ELLIPSIS])]]"
proof -
  have "sanitizeText (replicate 500 65) 300 = take 300 (replicate 500 65) @ [ELLIPSIS]"
    by (rule sanitizeText_no_whitespace) (simp_all add: isWhiteSpace_def)
  then have "sanitizeText (replicate 500 65) 300 = replicate 300 65 @ [ELLIPSIS]" by simp
  then show ?thesis
    by (simp add: getSelectedProductsPayload_def payloadEntry_def selectedState_def
        initialState_def hydraSerum_def)
qed

text \<open>
  C6 (amended). The payload has one entry for each selected identifier that the catalog
  has, in the order of the selection, and none for the others. An entry is the name, the
  brand, the category and the description sanitized with limit 300 of the first product
  of that identifier: these four properties and no other, so neither the identifier nor
  the image reference. A sanitized description has at most 301 code units; a description
  of 500 code units none of which is white space gives its first 300 code units and the
  ellipsis, 301 in all, as does the letter A 500 times in the catalog of one product.
\<close>

theorem getSelectedProductsPayload_entries:
  "list_all2
     (\<lambda>i entry. \<exists>p. find (\<lambda>x. pid x = i) (allProducts st) = Some p \<and>
        entry = [(''name'', name p), (''brand'', brand p), (''category'', category p),
                 (''description'', sanitizeText (description p) 300)])
     (filter (\<lambda>i. i \<in> pid ` set (allProducts st)) (selectedProductIds st))
     (getSelectedProductsPayload st) \<and>
   length (getSelectedProductsPayload st) =
     length (filter (\<lambda>i. i \<in> pid ` set (allProducts st)) (selectedProductIds st)) \<and>
   (\<forall>entry \<in> set (getSelectedProductsPayload st).
      map fst entry = [''name'', ''brand'', ''category'', ''description'']) \<and>
   length (sanitizeText d 300) \<le> 301 \<and>
   ((\<forall>c \<in> set d. \<not> isWhiteSpace c) \<and> length d = 500 \<longrightarrow>
      sanitizeText d 300 = take 300 d @ [ELLIPSIS] \<and> length (sanitizeText d 300) = 301) \<and>
   getSelectedProductsPayload selectedState =
     [[(''name'', str ''Hydra Serum''), (''brand'', str ''GlowCo''), (''category'', str ''skincare''),
       (''description'', replicate 300 65 @ [ELLIPSIS])]] \<and>
   length (replicate 300 (65::nat) @ [ELLIPSIS]) = 301"
proof -
  have a: "list_all2
     (\<lambda>i entry. \<exists>p. find (\<lambda>x. pid x = i) (allProducts st) = Some p \<and>
        entry = [(''name'', name p), (''brand'', brand p), (''category'', category p),
                 (''description'', sanitizeText (description p) 300)])
     (filter (\<lambda>i. i \<in> pid ` set (allProducts st)) (selectedProductIds st))
     (getSelectedProductsPayload st)"
    unfolding getSelectedProductsPayload_def by (rule payload_entries)
  then have b: "length (getSelectedProductsPayload st) =
     length (filter (\<lambda>i. i \<in> pid ` set (allProducts st)) (selectedProductIds st))"
    by (simp add: list_all2_lengthD)
  have c: "\<forall>entry \<in> set (getSelectedProductsPayload st).
      map fst entry = [''name'', ''brand'', ''category'', ''description'']"
    unfolding getSelectedProductsPayload_def using payload_keys by blast
  have d: "length (sanitizeText d 300) \<le> 301"
    using length_sanitizeText [of d 300] by simp
  have e: "(\<forall>c \<in> set d. \<not> isWhiteSpace c) \<and> length d = 500 \<longrightarrow>
      sanitizeText d 300 = take 300 d @ [ELLIPSIS] \<and> length (sanitizeText d 300) = 301"
  proof
    assume h: "(\<forall>c \<in> set d. \<not> isWhiteSpace c) \<and> length d = 500"
    then have "sanitizeText d 300 = take 300 d @ [ELLIPSIS]"
      by (intro sanitizeText_no_whitespace) simp_all
    with h show "sanitizeText d 300 = take 300 d @ [ELLIPSIS] \<and> length (sanitizeText d 300) = 301"
      by simp
  qed
  have f: "length (replicate 300 (65::nat) @ [ELLIPSIS]) = 301" by simp
  from a b c d e f hydra_payload show ?thesis by blast
qed

theorem getSelectedProductsPayload_entries_witness:
  "set (replicate 500 (65::nat)) = {65} \<and> \<not> isWhiteSpace 65 \<and>
   length (replicate 500 (65::nat)) = 500 \<and>
   sanitizeText (replicate 500 65) 300 = replicate 300 65 @ [ELLIPSIS] \<and>
   length (sanitizeText (replicate 500 65) 300) = 301 \<and>
   map (map fst) (getSelectedProductsPayload (selectedState\<lparr>selectedProductIds := [7, 1]\<rparr>)) =
     [[''name'', ''brand'', ''category'', ''description'']] \<and>
   length (getSelectedProductsPayload (selectedState\<lparr>selectedProductIds := [7, 1]\<rparr>)) = 1"
proof -
  have w: "\<not> isWhiteSpace 65" by (simp add: isWhiteSpace_def)
  then have h: "(\<forall>c \<in> set (replicate 500 (65::nat)). \<not> isWhiteSpace c) \<and> length (replicate 500 (65::nat)) = 500"
    by simp
  have s: "length (filter (\<lambda>i. i \<in> pid ` set (allProducts (selectedState\<lparr>selectedProductIds := [7, 1]\<rparr>)))
             (selectedProductIds (selectedState\<lparr>selectedProductIds := [7, 1]\<rparr>))) = 1"
    by (simp add: selectedState_def initialState_def hydraSerum_def)
  from h s getSelectedProductsPayload_entries [of "selectedState\<lparr>selectedProductIds := [7, 1]\<rparr>" "replicate 500 65"]
  have k: "\<forall>entry \<in> set (getSelectedProductsPayload (selectedState\<lparr>selectedProductIds := [7, 1]\<rparr>)).
             map fst entry = [''name'', ''brand'', ''category'', ''description'']"
    and l: "length (getSelectedProductsPayload (selectedState\<lparr>selectedProductIds := [7, 1]\<rparr>)) = 1"
    and t: "sanitizeText (replicate 500 65) 300 = replicate 300 65 @ [ELLIPSIS]"
    by simp_all
  from l obtain e where e: "getSelectedProductsPayload (selectedState\<lparr>selectedProductIds := [7, 1]\<rparr>) = [e]"
    by (auto simp: length_Suc_conv)
  with k have "map (map fst) (getSelectedProductsPayload (selectedState\<lparr>selectedProductIds := [7, 1]\<rparr>)) =
     [[''name'', ''brand'', ''category'', ''description'']]"
    by simp
  with w l t show ?thesis by simp
qed

lemma trimEnd_snoc_space: "trimEnd (s @ [SPACE]) = trimEnd s"
  by (simp add: trimEnd_def isWhiteSpace_SPACE)

lemma clean_spacedDescription: "clean spacedDescription"
proof -
  have a: "\<not> isWhiteSpace 65" by (simp add: isWhiteSpace_def)
  have "successively noRun (replicate 299 65)" and "successively noRun (replicate 200 65)"
    using a by (simp_all add: noRun_no_whitespace)
  then have "successively noRun spacedDescription"
    using a by (simp add: spacedDescription_def successively_append_iff successively_Cons noRun_def)
  moreover have "\<forall>c \<in> set spacedDescription. isWhiteSpace c \<longrightarrow> c = SPACE"
    using a by (auto simp: spacedDescription_def)
  moreover have "hd spacedDescription = 65" and "last spacedDescription = 65"
    by (simp_all add: spacedDescription_def hd_append)
  ultimately show ?thesis using a by (simp add: clean_def)
qed

lemma sanitize_spacedDescription:
  "sanitizeText spacedDescription 300 = replicate 299 65 @ [ELLIPSIS]"
proof -
  have a: "\<not> isWhiteSpace 65" by (simp add: isWhiteSpace_def)
  have s: "trim (collapseWhitespace spacedDescription) = spacedDescription"
    using clean_spacedDescription by (rule clean_fixed)
  have t: "take 300 spacedDescription = replicate 299 65 @ [SPACE]"
    by (simp add: spacedDescription_def)
  have "dropWhile isWhiteSpace (replicate 299 65 @ [SPACE]) = replicate 299 65 @ [SPACE]"
    using a by (simp add: dropWhile_append3)
  moreover have "trimEnd (replicate 299 65) = replicate 299 65"
    using a by (intro trimEnd_id) simp
  ultimately have u: "trim (take 300 spacedDescription) = replicate 299 65"
    by (simp add: t trim_def trimEnd_snoc_space)
  have "length spacedDescription = 500" by (simp add: spacedDescription_def)
  moreover have "spacedDescription \<noteq> []" by (simp add: spacedDescription_def)
  ultimately show ?thesis by (simp add: sanitizeText_def s u)
qed

text \<open>
  C6 as stated fails: a description of 500 code units whose 300th is a space is cut
  after that space, the space is trimmed, and the result is 299 code units and the
  ellipsis: 300, not 301.
\<close>

theorem description_length_counterexample:
  "length spacedDescription = 500 \<and>
   getSelectedProductsPayload spacedState =
     [[(''name'', str ''Hydra Serum''), (''brand'', str ''GlowCo''), (''category'', str ''skincare''),
       (''description'', replicate 299 65 @ [ELLIPSIS])]] \<and>
   length (replicate 299 (65::nat) @ [ELLIPSIS]) = 300"
proof -
  have "length spacedDescription = 500" by (simp add: spacedDescription_def)
  moreover have "getSelectedProductsPayload spacedState =
     [[(''name'', str ''Hydra Serum''), (''brand'', str ''GlowCo''), (''category'', str ''skincare''),
       (''description'', replicate 299 65 @ [ELLIPSIS])]]"
    by (simp add: getSelectedProductsPayload_def payloadEntry_def spacedState_def
        initialState_def hydraSerum_def sanitize_spacedDescription)
  ultimately show ?thesis by simp
qed

section \<open>Restoring the selection\<close>




lemma restoreId_allProducts: "allProducts (restoreId Number st raw) = allProducts st"
  by (simp add: restoreId_def split: jsnumber.splits option.splits)

lemma foldl_restoreId_allProducts: "allProducts (foldl (restoreId Number) st arr) = allProducts st"
  by (induction arr arbitrary: st) (simp_all add: restoreId_allProducts)






section \<open>Routine generation and the hidden log\<close>

lemma payload_Nil_iff:
  "getSelectedProductsPayload st = [] \<longleftrightarrow>
     (\<forall>i \<in> set (selectedProductIds st). i \<notin> pid ` set (allProducts st))"
proof -
  have "length [entry. Some entry \<leftarrow> map (payloadEntry st) (selectedProductIds st)] =
        length (filter (\<lambda>i. i \<in> pid ` set (allProducts st)) (selectedProductIds st))"
    using payload_entries [of st "selectedProductIds st"] by (simp add: list_all2_lengthD)
  then have "getSelectedProductsPayload st = [] \<longleftrightarrow>
        filter (\<lambda>i. i \<in> pid ` set (allProducts st)) (selectedProductIds st) = []"
    unfolding getSelectedProductsPayload_def by (metis length_0_conv)
  then show ?thesis by (simp add: filter_empty_conv)
qed

lemma send_hidden:
  "hiddenApiMessages (snd (sendChatMessagesAndGetReply env messages st)) = hiddenApiMessages st"
  by (simp add: sendChatMessagesAndGetReply_def Let_def split: option.splits response.splits)


lemma renderChatWindow_frame:
  "renderChatWindow st = st\<lparr>chatWindow := chatWindow (renderChatWindow st)\<rparr>"
  by (simp add: renderChatWindow_def Let_def)

lemma renderChatWindow_hidden [simp]:
  "hiddenApiMessages (renderChatWindow st) = hiddenApiMessages st"
  by (simp add: renderChatWindow_def Let_def)

lemma renderChatWindow_conversation [simp]:
  "conversationMessages (renderChatWindow st) = conversationMessages st"
  by (simp add: renderChatWindow_def Let_def)

lemma renderChatWindow_requests [simp]:
  "requests (renderChatWindow st) = requests st"
  by (simp add: renderChatWindow_def Let_def)

lemma send_requests:
  "getApiKey env \<noteq> None \<Longrightarrow>
     requests (snd (sendChatMessagesAndGetReply env messages st)) = requests st @ [messages]"
  by (auto simp: sendChatMessagesAndGetReply_def Let_def split: response.splits)

lemma generateRoutine_requests:
  assumes "getSelectedProductsPayload st \<noteq> []" and "getApiKey env \<noteq> None"
  shows "requests (generateRoutine env st) =
           requests st @ [messagesForApi (pushHidden (userPayload env (getSelectedProductsPayload st)) st)]"
proof -
  let ?st1 = "pushHidden (userPayload env (getSelectedProductsPayload st)) st"
  let ?st2 = "?st1\<lparr>chatWindow := GeneratingRoutine, generateRoutineBtnDisabled := True\<rparr>"
  have "requests (snd (sendChatMessagesAndGetReply env (messagesForApi ?st1) ?st2)) =
          requests ?st2 @ [messagesForApi ?st1]"
    using assms(2) by (rule send_requests)
  moreover have "requests ?st2 = requests st" by (simp add: pushHidden_def)
  ultimately show ?thesis using assms
    by (simp add: generateRoutine_def Let_def case_prod_beta pushConversation_def
        split: sum.splits)
qed

lemma request_holds_payload:
  "Some m \<in> set (messagesForApi (pushHidden m st))"
  by (simp add: messagesForApi_def pushHidden_def)

text \<open>
  C2 (amended). A routine request that passes the two checks, of an empty payload and
  of a missing key, appends exactly one message to the hidden log: the payload message.
  It is pushed before the call: the one request the call sends is the request built
  from the log that already holds it. The message is kept whatever the endpoint
  answers, a reply, an error or an empty content. A request stopped by either check
  leaves the hidden log as it was and sends nothing.
\<close>

theorem generateRoutine_hidden_log:
  "hiddenApiMessages (generateRoutine env st) =
     (if getSelectedProductsPayload st = [] \<or> getApiKey env = None then hiddenApiMessages st
      else hiddenApiMessages st @ [userPayload env (getSelectedProductsPayload st)]) \<and>
   requests (generateRoutine env st) =
     (if getSelectedProductsPayload st = [] \<or> getApiKey env = None then requests st
      else requests st @
           [messagesForApi (pushHidden (userPayload env (getSelectedProductsPayload st)) st)]) \<and>
   Some (userPayload env (getSelectedProductsPayload st)) \<in>
     set (messagesForApi (pushHidden (userPayload env (getSelectedProductsPayload st)) st))"
proof (intro conjI)
  show "hiddenApiMessages (generateRoutine env st) =
     (if getSelectedProductsPayload st = [] \<or> getApiKey env = None then hiddenApiMessages st
      else hiddenApiMessages st @ [userPayload env (getSelectedProductsPayload st)])"
    by (simp add: generateRoutine_def Let_def case_prod_beta send_hidden pushHidden_def
        pushConversation_def split: sum.splits)
next
  show "requests (generateRoutine env st) =
     (if getSelectedProductsPayload st = [] \<or> getApiKey env = None then requests st
      else requests st @
           [messagesForApi (pushHidden (userPayload env (getSelectedProductsPayload st)) st)])"
  proof (cases "getSelectedProductsPayload st = [] \<or> getApiKey env = None")
    case True
    then show ?thesis by (auto simp: generateRoutine_def Let_def)
  next
    case False
    then show ?thesis using generateRoutine_requests [of st env] by simp
  qed
next
  show "Some (userPayload env (getSelectedProductsPayload st)) \<in>
     set (messagesForApi (pushHidden (userPayload env (getSelectedProductsPayload st)) st))"
    by (rule request_holds_payload)
qed

theorem generateRoutine_hidden_log_witness:
  "getSelectedProductsPayload selectedState \<noteq> [] \<and> getApiKey failingEnv \<noteq> None \<and>
   getApiKey answeringEnv \<noteq> None \<and> hiddenApiMessages selectedState = [] \<and>
   requests selectedState = [] \<and>
   hiddenApiMessages (generateRoutine failingEnv selectedState) =
     [userPayload failingEnv (getSelectedProductsPayload selectedState)] \<and>
   requests (generateRoutine failingEnv selectedState) =
     [[Some systemDirective, Some (userPayload failingEnv (getSelectedProductsPayload selectedState))]] \<and>
   hiddenApiMessages (generateRoutine answeringEnv selectedState) =
     [userPayload answeringEnv (getSelectedProductsPayload selectedState)] \<and>
   requests (generateRoutine answeringEnv selectedState) =
     [[Some systemDirective, Some (userPayload answeringEnv (getSelectedProductsPayload selectedState))]] \<and>
   hiddenApiMessages (generateRoutine noKeyEnv selectedState) = [] \<and>
   requests (generateRoutine noKeyEnv selectedState) = []"
proof -
  have a: "getSelectedProductsPayload selectedState \<noteq> []" by (simp add: hydra_payload)
  have b: "getApiKey failingEnv \<noteq> None" "getApiKey answeringEnv \<noteq> None" "getApiKey noKeyEnv = None"
    by (simp_all add: getApiKey_def failingEnv_def answeringEnv_def noKeyEnv_def str_def
        DEFAULT_OPENAI_API_KEY_def)
  have c: "hiddenApiMessages selectedState = []" "requests selectedState = []"
    by (simp_all add: selectedState_def initialState_def)
  have d: "messagesForApi (pushHidden m selectedState) = [Some systemDirective, Some m]" for m
    by (simp add: messagesForApi_def pushHidden_def index_def selectedState_def initialState_def)
  from a b c generateRoutine_hidden_log [of failingEnv selectedState]
    generateRoutine_hidden_log [of answeringEnv selectedState]
    generateRoutine_hidden_log [of noKeyEnv selectedState]
  show ?thesis by (simp add: d)
qed

text \<open>
  C2 as stated fails: with the product selected and a key configured, the endpoint
  answers 500; the error is shown, no reply is added to the conversation, and the hidden
  log, empty before, holds one message.
\<close>

theorem failed_request_counterexample:
  "chatWindow (generateRoutine failingEnv selectedState) =
     ErrorGeneratingRoutine (str ''API error 500: overloaded'') \<and>
   conversationMessages (generateRoutine failingEnv selectedState) =
     conversationMessages selectedState \<and>
   hiddenApiMessages selectedState = [] \<and>
   length (hiddenApiMessages (generateRoutine failingEnv selectedState)) = 1"
proof -
  have a: "getSelectedProductsPayload selectedState \<noteq> []" by (simp add: hydra_payload)
  have b: "getApiKey failingEnv = Some (str ''sk-local'')"
    by (simp add: getApiKey_def failingEnv_def str_def)
  have d: "decimal 500 = str ''500''" by (simp add: decimal.simps str_def)
  have f: "fetch failingEnv k m = NotOk 500 (str ''overloaded'')" for k m
    by (simp add: failingEnv_def)
  have c: "hiddenApiMessages selectedState = []" by (simp add: selectedState_def initialState_def)
  have e: "str ''API error '' @ str ''500'' @ str '': '' @ str ''overloaded'' = str ''API error 500: overloaded''"
    by (simp add: str_def)
  from a b c d e f show ?thesis
    by (simp add: generateRoutine_def Let_def pushHidden_def sendChatMessagesAndGetReply_def
        requireContent_def)
qed

text \<open>
  C5. Without a credential \<open>generateRoutine\<close> appends no hidden and no visible message
  and sends no request, whatever is selected. When the selection is not empty (and holds
  identifiers of the catalog, as the Selection Set does), all it does is to replace the
  chat window by the notice that the key is not set.
\<close>

theorem generateRoutine_without_key:
  assumes "getApiKey env = None"
  shows "hiddenApiMessages (generateRoutine env st) = hiddenApiMessages st \<and>
         conversationMessages (generateRoutine env st) = conversationMessages st \<and>
         requests (generateRoutine env st) = requests st \<and>
         (selectedProductIds st \<noteq> [] \<and> set (selectedProductIds st) \<subseteq> pid ` set (allProducts st) \<longrightarrow>
            generateRoutine env st = st\<lparr>chatWindow := ApiKeyNotSet\<rparr>)"
proof -
  have "generateRoutine env st = st\<lparr>chatWindow := ApiKeyNotSet\<rparr>"
    if "selectedProductIds st \<noteq> []" and "set (selectedProductIds st) \<subseteq> pid ` set (allProducts st)"
  proof -
    from that(1) obtain i where "i \<in> set (selectedProductIds st)"
      by (cases "selectedProductIds st") auto
    with that(2) have "getSelectedProductsPayload st \<noteq> []" by (auto simp: payload_Nil_iff)
    with assms show ?thesis by (simp add: generateRoutine_def Let_def)
  qed
  moreover from assms have "hiddenApiMessages (generateRoutine env st) = hiddenApiMessages st"
    and "conversationMessages (generateRoutine env st) = conversationMessages st"
    and "requests (generateRoutine env st) = requests st"
    by (simp_all add: generateRoutine_def Let_def)
  ultimately show ?thesis by blast
qed

theorem generateRoutine_without_key_witness:
  "getApiKey noKeyEnv = None \<and> selectedProductIds selectedState \<noteq> [] \<and>
   set (selectedProductIds selectedState) \<subseteq> pid ` set (allProducts selectedState) \<and>
   generateRoutine noKeyEnv selectedState = selectedState\<lparr>chatWindow := ApiKeyNotSet\<rparr> \<and>
   hiddenApiMessages (generateRoutine noKeyEnv selectedState) = [] \<and>
   conversationMessages (generateRoutine noKeyEnv selectedState) = [systemDirective] \<and>
   requests (generateRoutine noKeyEnv selectedState) = []"
proof -
  have a: "getApiKey noKeyEnv = None" by (simp add: getApiKey_def noKeyEnv_def DEFAULT_OPENAI_API_KEY_def)
  have b: "selectedProductIds selectedState \<noteq> []" by (simp add: selectedState_def)
  have c: "set (selectedProductIds selectedState) \<subseteq> pid ` set (allProducts selectedState)"
    by (simp add: selectedState_def initialState_def hydraSerum_def)
  have d: "requests selectedState = []" "hiddenApiMessages selectedState = []"
    "conversationMessages selectedState = [systemDirective]"
    by (simp_all add: selectedState_def initialState_def)
  from a b c d generateRoutine_without_key [OF a, of selectedState] show ?thesis by simp
qed

text \<open>
  C10. When the payload of the selection is empty, \<open>generateRoutine\<close> only replaces the
  chat window by the notice to select a product, whatever the environment, with or
  without a key: the conversation, the hidden log, the selection and the requests sent
  are as before.
\<close>

theorem generateRoutine_empty_payload:
  assumes "getSelectedProductsPayload st = []"
  shows "generateRoutine env st = st\<lparr>chatWindow := SelectAtLeastOne\<rparr> \<and>
         conversationMessages (generateRoutine env st) = conversationMessages st \<and>
         hiddenApiMessages (generateRoutine env st) = hiddenApiMessages st \<and>
         selectedProductIds (generateRoutine env st) = selectedProductIds st \<and>
         requests (generateRoutine env st) = requests st"
  using assms by (simp add: generateRoutine_def)

theorem generateRoutine_empty_payload_witness:
  "getSelectedProductsPayload (initialState [hydraSerum]) = [] \<and>
   getSelectedProductsPayload (selectedState\<lparr>selectedProductIds := [7]\<rparr>) = [] \<and>
   generateRoutine answeringEnv (initialState [hydraSerum]) =
     (initialState [hydraSerum])\<lparr>chatWindow := SelectAtLeastOne\<rparr> \<and>
   generateRoutine noKeyEnv (selectedState\<lparr>selectedProductIds := [7]\<rparr>) =
     selectedState\<lparr>selectedProductIds := [7], chatWindow := SelectAtLeastOne\<rparr>"
proof -
  have a: "getSelectedProductsPayload (initialState [hydraSerum]) = []"
    by (simp add: getSelectedProductsPayload_def initialState_def)
  have b: "getSelectedProductsPayload (selectedState\<lparr>selectedProductIds := [7]\<rparr>) = []"
    by (simp add: getSelectedProductsPayload_def payloadEntry_def selectedState_def
        initialState_def hydraSerum_def)
  from a b generateRoutine_empty_payload [OF a, of answeringEnv]
    generateRoutine_empty_payload [OF b, of noKeyEnv]
  show ?thesis by simp
qed

section \<open>Follow-up questions and the placeholder\<close>

lemma renderChatWindow_selected [simp]:
  "selectedProductIds (renderChatWindow st) = selectedProductIds st"
  by (simp add: renderChatWindow_def Let_def)









lemma key_answeringEnv: "getApiKey answeringEnv = Some (str ''sk-local'')"
  by (simp add: getApiKey_def answeringEnv_def str_def)







text \<open>
  C9. A non-empty follow-up that the gate refuses, with a key configured: the handler
  appends the fixed refusal and nothing else to the conversation (so not the user's
  text), clears the input, and leaves the hidden log and the requests sent as they were.
\<close>

theorem chatFormSubmit_off_topic:
  assumes "trim (userInput st) \<noteq> []"
    and "getApiKey env \<noteq> None"
    and "\<not> isAllowedQuestion env (allProducts st) (trim (userInput st))"
  shows "\<exists>st'. chatFormSubmit env st = Some st' \<and>
           st' = st\<lparr>conversationMessages := conversationMessages st @ [refusal],
                     chatWindow := chatWindow st', userInput := []\<rparr> \<and>
           conversationMessages st' = conversationMessages st @ [refusal] \<and>
           hiddenApiMessages st' = hiddenApiMessages st \<and>
           requests st' = requests st"
  using assms
  by (simp add: chatFormSubmit_def submitBegin_def Let_def pushConversation_def
      renderChatWindow_def)

lemma trim_market:
  "trim (str ''What's today's stock market doing?'') = str ''What's today's stock market doing?''"
  by (simp add: str_def trim_def trimEnd_def isWhiteSpace_def)

lemma market_refused: "\<not> isAllowedQuestion env [hydraSerum] (str ''What's today's stock market doing?'')"
proof -
  have "\<not> list_ex (mentions env (str ''what's today's stock market doing?'')) [hydraSerum]"
    by (simp add: mentions_def Let_def hydraSerum_def toLowerCase_def lowerUnit_def str_def)
  then show ?thesis by (simp only: market_gate) simp
qed

theorem chatFormSubmit_off_topic_witness:
  "trim (userInput offTopicState) \<noteq> [] \<and> getApiKey answeringEnv \<noteq> None \<and>
   \<not> isAllowedQuestion answeringEnv (allProducts offTopicState) (trim (userInput offTopicState)) \<and>
   (\<exists>st'. chatFormSubmit answeringEnv offTopicState = Some st' \<and>
      conversationMessages st' = [systemDirective, refusal] \<and>
      hiddenApiMessages st' = [] \<and> requests st' = [])"
proof -
  have u: "userInput offTopicState = str ''What's today's stock market doing?''"
    by (simp add: offTopicState_def)
  have p: "allProducts offTopicState = [hydraSerum]"
    by (simp add: offTopicState_def selectedState_def initialState_def)
  have a: "trim (userInput offTopicState) \<noteq> []" by (simp add: u trim_market) (simp add: str_def)
  have b: "getApiKey answeringEnv \<noteq> None" by (simp add: key_answeringEnv)
  have c: "\<not> isAllowedQuestion answeringEnv (allProducts offTopicState) (trim (userInput offTopicState))"
    by (simp add: u p trim_market market_refused)
  have d: "conversationMessages offTopicState = [systemDirective]"
    "hiddenApiMessages offTopicState = []" "requests offTopicState = []"
    by (simp_all add: offTopicState_def selectedState_def initialState_def)
  from chatFormSubmit_off_topic [OF a b c] a b c show ?thesis by (auto simp: d)
qed

end
